theory Spec2Isabelle
  imports Main "HOL-Library.Word" "HOL-Library.Sublist" "HOL-Library.FSet"
begin

section \<open>Strings and cell values\<close>

text \<open>
  A JavaScript string is a sequence of 16-bit code units. Regular expressions without the
  \<^verbatim>\<open>u\<close> flag, as used throughout the component, work on code units, so the model
  does too. \<open>lit\<close> writes a string literal of the source.
\<close>

type_synonym jschar = "16 word"
type_synonym jsstring = "jschar list"

definition ch :: "char \<Rightarrow> jschar" where
  "ch c = of_char c"

definition lit :: "string \<Rightarrow> jsstring" where
  "lit s = map ch s"

text \<open>
  A cell of \<^verbatim>\<open>data: any[][]\<close> is either a string or some other JavaScript value
  (the parser hands numbers and booleans through as they are). The converter looks at a
  value that is not a string in two ways only: its truthiness (\<^verbatim>\<open>headers[i] ? .. : ..\<close>)
  and its coercion \<^verbatim>\<open>String(v)\<close>; \<open>NonStr\<close> carries these two observations.
  The comparison \<^verbatim>\<open>cell !== ""\<close> is true of every value that is not a string.
\<close>

datatype cell = Str jsstring | NonStr bool jsstring

fun truthy :: "cell \<Rightarrow> bool" where
  "truthy (Str s) = (s \<noteq> [])"
| "truthy (NonStr b s) = b"

fun js_String :: "cell \<Rightarrow> jsstring" where
  "js_String (Str s) = s"
| "js_String (NonStr b s) = s"

record SheetData =
  name :: jsstring
  data :: "cell list list"

section \<open>Helper functions of the component\<close>

text \<open>\<^verbatim>\<open>str.replace(/c/g, r)\<close> for a pattern of one character \<open>c\<close>.\<close>

definition replace_all :: "jschar \<Rightarrow> jsstring \<Rightarrow> jsstring \<Rightarrow> jsstring" where
  "replace_all c r str = concat (map (\<lambda>x. if x = c then r else [x]) str)"

definition escapeXml :: "jsstring \<Rightarrow> jsstring" where
  "escapeXml str =
     replace_all (ch CHR 0x27) (lit ''&apos;'')
       (replace_all (ch CHR 0x22) (lit ''&quot;'')
         (replace_all (ch CHR ''>'') (lit ''&gt;'')
           (replace_all (ch CHR ''<'') (lit ''&lt;'')
             (replace_all (ch CHR ''&'') (lit ''&amp;'') str))))"

text \<open>The character classes \<^verbatim>\<open>[a-zA-Z0-9_-]\<close> and \<^verbatim>\<open>[a-zA-Z_]\<close>.\<close>

definition name_char :: "jschar \<Rightarrow> bool" where
  "name_char c \<longleftrightarrow>
     (ch CHR ''a'' \<le> c \<and> c \<le> ch CHR ''z'') \<or> (ch CHR ''A'' \<le> c \<and> c \<le> ch CHR ''Z'') \<or>
     (ch CHR ''0'' \<le> c \<and> c \<le> ch CHR ''9'') \<or> c = ch CHR ''_'' \<or> c = ch CHR ''-''"

definition start_char :: "jschar \<Rightarrow> bool" where
  "start_char c \<longleftrightarrow>
     (ch CHR ''a'' \<le> c \<and> c \<le> ch CHR ''z'') \<or> (ch CHR ''A'' \<le> c \<and> c \<le> ch CHR ''Z'') \<or>
     c = ch CHR ''_''"

text \<open>\<^verbatim>\<open>.replace(/[^a-zA-Z0-9_-]/g, "_")\<close>, then \<^verbatim>\<open>.replace(/^[^a-zA-Z_]/, "_")\<close>.\<close>

definition replace_invalid :: "jsstring \<Rightarrow> jsstring" where
  "replace_invalid tag = concat (map (\<lambda>c. if \<not> name_char c then lit ''_'' else [c]) tag)"

fun replace_leading :: "jsstring \<Rightarrow> jsstring" where
  "replace_leading [] = []"
| "replace_leading (c # cs) = (if \<not> start_char c then lit ''_'' @ cs else c # cs)"

definition sanitizeTagName :: "jsstring \<Rightarrow> jsstring" where
  "sanitizeTagName tag = replace_leading (replace_invalid tag)"

text \<open>
  The decimal numeral of a column number, as the template literal
  \<^verbatim>\<open>`Column${cellIndex + 1}`\<close> prints it (an array index stays far below the
  magnitude where JavaScript switches to exponent notation).
\<close>

fun decimal :: "nat \<Rightarrow> jsstring" where
  "decimal n =
     (if n < 10 then [ch CHR ''0'' + of_nat n]
      else decimal (n div 10) @ [ch CHR ''0'' + of_nat (n mod 10)])"

declare decimal.simps [simp del]

section \<open>Serialization\<close>

text \<open>
  \<^verbatim>\<open>headers[cellIndex] ? sanitizeTagName(String(headers[cellIndex])) : `Column${cellIndex + 1}`\<close>:
  an index beyond the header row reads \<^verbatim>\<open>undefined\<close>, which is falsy.
\<close>

definition tagName :: "cell list \<Rightarrow> nat \<Rightarrow> jsstring" where
  "tagName headers cellIndex =
     (if cellIndex < length headers \<and> truthy (headers ! cellIndex)
      then sanitizeTagName (js_String (headers ! cellIndex))
      else lit ''Column'' @ decimal (cellIndex + 1))"

text \<open>The body of \<^verbatim>\<open>row.forEach((cell, cellIndex) => ..)\<close>: one line appended to \<open>xml\<close>.\<close>

definition emit_cell :: "cell list \<Rightarrow> jsstring \<Rightarrow> nat \<Rightarrow> cell \<Rightarrow> jsstring" where
  "emit_cell headers xml cellIndex cell =
     (let tag = tagName headers cellIndex;
          val = escapeXml (js_String cell)
      in xml @ lit ''      <'' @ tag @ lit ''>'' @ val @ lit ''</'' @ tag @ lit ''>\<newline>'')"

fun forEach_cells :: "cell list \<Rightarrow> nat \<Rightarrow> cell list \<Rightarrow> jsstring \<Rightarrow> jsstring" where
  "forEach_cells headers cellIndex [] xml = xml"
| "forEach_cells headers cellIndex (cell # row) xml =
     forEach_cells headers (Suc cellIndex) row (emit_cell headers xml cellIndex cell)"

text \<open>\<^verbatim>\<open>row.some(cell => cell !== "")\<close>.\<close>

definition some_nonempty :: "cell list \<Rightarrow> bool" where
  "some_nonempty row = list_ex (\<lambda>cell. cell \<noteq> Str []) row"

text \<open>The body of the loop over the data rows.\<close>

definition emit_row :: "cell list \<Rightarrow> jsstring \<Rightarrow> cell list \<Rightarrow> jsstring" where
  "emit_row headers xml row =
     (if some_nonempty row
      then forEach_cells headers 0 row (xml @ lit ''    <Row>\<newline>'') @ lit ''    </Row>\<newline>''
      else xml)"

text \<open>\<^verbatim>\<open>for (let i = 1; i < sheet.data.length; i++)\<close>.\<close>

function rows_loop :: "cell list \<Rightarrow> cell list list \<Rightarrow> nat \<Rightarrow> jsstring \<Rightarrow> jsstring" where
  "rows_loop headers rows i xml =
     (if i < length rows then rows_loop headers rows (Suc i) (emit_row headers xml (rows ! i))
      else xml)"
  by pat_completeness auto
termination
  by (relation "measure (\<lambda>(headers, rows, i, xml). length rows - i)") auto

declare rows_loop.simps [simp del]

text \<open>The body of \<^verbatim>\<open>selectedSheetsArray.forEach\<close>.\<close>

definition emit_sheet :: "jsstring \<Rightarrow> SheetData \<Rightarrow> jsstring" where
  "emit_sheet xml sheet =
     (let xml1 = xml @ lit ''  <Sheet name=\"'' @ escapeXml (name sheet) @ lit ''\">\<newline>'';
          xml2 = (if length (data sheet) > 0
                  then rows_loop (data sheet ! 0) (data sheet) 1 xml1
                  else xml1)
      in xml2 @ lit ''  </Sheet>\<newline>'')"

section \<open>Component state and operations\<close>

text \<open>
  The uploaded file: its name, its MIME type, and the bytes \<^verbatim>\<open>arrayBuffer()\<close>
  resolves to (\<open>None\<close> when the read is rejected).
\<close>

record File =
  filename :: jsstring
  mimetype :: jsstring
  arrayBuffer :: "8 word list option"

text \<open>
  The state hooks of the component (\<open>loaded_file\<close> is the hook \<^verbatim>\<open>file\<close>).
  The progress percentage and the drag flag only drive the display and are left out.
\<close>

record state =
  loaded_file :: "File option"
  sheets :: "SheetData list"
  selectedSheets :: "jsstring fset"
  xmlOutput :: jsstring
  processing :: bool

text \<open>
  The notifications, named by their titles: \<open>InvalidFileType\<close> reports an unsupported
  format, \<open>ErrorReadingFile\<close> a parse error, \<open>NoSheetsSelected\<close> an empty selection.
  An effect is a notification or a call of the parsing library.
\<close>

datatype toast =
  InvalidFileType | FileLoadedSuccessfully nat | ErrorReadingFile
  | NoSheetsSelected | ConversionComplete nat | ConversionError

datatype effect = Toast toast | CallXlsxRead "8 word list"

definition xml_prolog :: jsstring where
  "xml_prolog = lit ''<?xml version=\"1.0\" encoding=\"UTF-8\"?>\<newline><Workbook>\<newline>''"

definition convertToXml :: "state \<Rightarrow> state \<times> effect list" where
  "convertToXml st =
     (if length (sheets st) = 0 \<or> fcard (selectedSheets st) = 0
      then (st, [Toast NoSheetsSelected])
      else
        let selectedSheetsArray = filter (\<lambda>s. name s |\<in>| selectedSheets st) (sheets st);
            xml = foldl emit_sheet xml_prolog selectedSheetsArray
        in (st\<lparr>xmlOutput := xml @ lit ''</Workbook>'', processing := False\<rparr>,
            [Toast (ConversionComplete (fcard (selectedSheets st)))]))"

text \<open>
  With the model's cell values no step of the conversion throws, so the notification
  \<open>ConversionError\<close> of the \<^verbatim>\<open>catch\<close> branch is never issued by \<open>convertToXml\<close>.
\<close>

text \<open>\<^verbatim>\<open>toggleSheet\<close>.\<close>

definition toggleSheet :: "jsstring \<Rightarrow> state \<Rightarrow> state" where
  "toggleSheet sheetName st =
     (if sheetName |\<in>| selectedSheets st
      then st\<lparr>selectedSheets := selectedSheets st |-| {|sheetName|}\<rparr>
      else st\<lparr>selectedSheets := finsert sheetName (selectedSheets st)\<rparr>)"

text \<open>
  The buttons \<^verbatim>\<open>Change File\<close> and \<^verbatim>\<open>Convert Another File\<close> make the same three
  updates; neither resets the selection. \<open>initial_state\<close> holds the initial values of
  the hooks.
\<close>

definition changeFile :: "state \<Rightarrow> state" where
  "changeFile st = st\<lparr>loaded_file := None, sheets := [], xmlOutput := []\<rparr>"

definition initial_state :: state where
  "initial_state =
     \<lparr>loaded_file = None, sheets = [], selectedSheets = {||}, xmlOutput = [], processing = False\<rparr>"

subsection \<open>Upload\<close>

definition validTypes :: "jsstring list" where
  "validTypes =
     [lit ''application/vnd.openxmlformats-officedocument.spreadsheetml.sheet'',
      lit ''application/vnd.ms-excel'',
      lit ''text/csv'']"

text \<open>
  \<^verbatim>\<open>uploadedFile.name.match(/\.(xlsx|xls|csv)$/i)\<close>: the name ends with one of the three
  extensions, letters compared without regard to case. Without the \<^verbatim>\<open>u\<close> flag only
  the ASCII letters fold onto the letters of the pattern.
\<close>

definition ascii_lower :: "jschar \<Rightarrow> jschar" where
  "ascii_lower c = (if ch CHR ''A'' \<le> c \<and> c \<le> ch CHR ''Z'' then c + 0x20 else c)"

definition matches_extension :: "jsstring \<Rightarrow> bool" where
  "matches_extension fname \<longleftrightarrow>
     suffix (lit ''.xlsx'') (map ascii_lower fname) \<or>
     suffix (lit ''.xls'') (map ascii_lower fname) \<or>
     suffix (lit ''.csv'') (map ascii_lower fname)"

text \<open>
  The parsing library is outside the component: \<open>read\<close> stands for \<^verbatim>\<open>XLSX.read\<close>
  and \<open>sheet_to_json\<close> for
  \<^verbatim>\<open>XLSX.utils.sheet_to_json(worksheet, { header: 1, defval: "" })\<close>, each giving \<open>None\<close>
  when the call throws; both are parameters of the upload handler. \<open>extract_sheets\<close> is
  \<^verbatim>\<open>workbook.SheetNames.map(..)\<close>, which stops at the first call that throws.
\<close>

record 'ws workbook =
  SheetNames :: "jsstring list"
  Sheets :: "jsstring \<Rightarrow> 'ws option"

fun extract_sheets ::
  "('ws option \<Rightarrow> cell list list option) \<Rightarrow> 'ws workbook \<Rightarrow> jsstring list \<Rightarrow>
   SheetData list option" where
  "extract_sheets sheet_to_json wb [] = Some []"
| "extract_sheets sheet_to_json wb (sheetName # rest) =
     (case sheet_to_json (Sheets wb sheetName) of
        None \<Rightarrow> None
      | Some d \<Rightarrow>
          (case extract_sheets sheet_to_json wb rest of
             None \<Rightarrow> None
           | Some extracted \<Rightarrow> Some (\<lparr>name = sheetName, data = d\<rparr> # extracted)))"

text \<open>
  The handler returns the state after all its updates and the effects it caused, in order.
  Every failure inside the \<^verbatim>\<open>try\<close> block (reading the bytes, parsing, extracting) ends
  in the \<^verbatim>\<open>catch\<close> branch.
\<close>

definition handleFileUpload ::
  "(8 word list \<Rightarrow> 'ws workbook option) \<Rightarrow> ('ws option \<Rightarrow> cell list list option) \<Rightarrow>
   File option \<Rightarrow> state \<Rightarrow> state \<times> effect list" where
  "handleFileUpload read sheet_to_json uploadedFile st =
     (case uploadedFile of
        None \<Rightarrow> (st, [])
      | Some f \<Rightarrow>
          if mimetype f \<notin> set validTypes \<and> \<not> matches_extension (filename f)
          then (st, [Toast InvalidFileType])
          else
            (case arrayBuffer f of
               None \<Rightarrow>
                 (st\<lparr>loaded_file := None, processing := False\<rparr>, [Toast ErrorReadingFile])
             | Some bytes \<Rightarrow>
                 (case read bytes of
                    None \<Rightarrow>
                      (st\<lparr>loaded_file := None, processing := False\<rparr>,
                       [CallXlsxRead bytes, Toast ErrorReadingFile])
                  | Some wb \<Rightarrow>
                      (case extract_sheets sheet_to_json wb (SheetNames wb) of
                         None \<Rightarrow>
                           (st\<lparr>loaded_file := None, processing := False\<rparr>,
                            [CallXlsxRead bytes, Toast ErrorReadingFile])
                       | Some extractedSheets \<Rightarrow>
                           (st\<lparr>loaded_file := Some f, sheets := extractedSheets,
                               selectedSheets := fset_of_list (map name extractedSheets),
                               processing := False\<rparr>,
                            [CallXlsxRead bytes,
                             Toast (FileLoadedSuccessfully (length extractedSheets))])))))"

subsection \<open>The states of the component\<close>

text \<open>
  The states the component passes through, for a given parsing library: the initial values
  of the hooks, and from any state the state after an upload (and the one shown while its
  bytes are being read), after a checkbox of a listed sheet is toggled, after one of the two
  reset buttons, and after a conversion. The conditions under which the interface shows a
  control are not recorded, so the relation holds of every state a session can be in.
\<close>

inductive reachable ::
  "(8 word list \<Rightarrow> 'ws workbook option) \<Rightarrow> ('ws option \<Rightarrow> cell list list option) \<Rightarrow>
   state \<Rightarrow> bool"
  for read :: "8 word list \<Rightarrow> 'ws workbook option"
    and sheet_to_json :: "'ws option \<Rightarrow> cell list list option"
where
  initial: "reachable read sheet_to_json initial_state"
| upload_started:
    "reachable read sheet_to_json st \<Longrightarrow>
     reachable read sheet_to_json (st\<lparr>loaded_file := Some f, processing := True\<rparr>)"
| upload:
    "reachable read sheet_to_json st \<Longrightarrow>
     reachable read sheet_to_json (fst (handleFileUpload read sheet_to_json uploadedFile st))"
| toggle:
    "reachable read sheet_to_json st \<Longrightarrow> sheet \<in> set (sheets st) \<Longrightarrow>
     reachable read sheet_to_json (toggleSheet (name sheet) st)"
| reset:
    "reachable read sheet_to_json st \<Longrightarrow> reachable read sheet_to_json (changeFile st)"
| convert:
    "reachable read sheet_to_json st \<Longrightarrow>
     reachable read sheet_to_json (fst (convertToXml st))"

section \<open>Notions used in the statements\<close>

text \<open>
  The element written for a cell, the \<^verbatim>\<open><Row>\<close> element written for a row (one child
  element per cell of the row, in column order), and the element written for a sheet: its
  data rows are the rows after the header row, and a data row is written when not all of its
  cells are the empty string.
\<close>

definition cell_element :: "cell list \<Rightarrow> nat \<Rightarrow> cell \<Rightarrow> jsstring" where
  "cell_element headers i c =
     lit ''      <'' @ tagName headers i @ lit ''>'' @ escapeXml (js_String c) @
     lit ''</'' @ tagName headers i @ lit ''>\<newline>''"

definition row_element :: "cell list \<Rightarrow> cell list \<Rightarrow> jsstring" where
  "row_element headers row =
     lit ''    <Row>\<newline>'' @
     concat (map (\<lambda>i. cell_element headers i (row ! i)) [0..<length row]) @
     lit ''    </Row>\<newline>''"

definition sheet_element :: "SheetData \<Rightarrow> jsstring" where
  "sheet_element sheet =
     lit ''  <Sheet name=\"'' @ escapeXml (name sheet) @ lit ''\">\<newline>'' @
     (case data sheet of
        [] \<Rightarrow> []
      | headers # rows \<Rightarrow>
          concat (map (\<lambda>row. if \<forall>c \<in> set row. c = Str [] then [] else row_element headers row)
                    rows)) @
     lit ''  </Sheet>\<newline>''"

text \<open>
  A worksheet as the parsing library holds it: for each row, the cells the row has, from
  the first column on. Its width is the length of its longest row.
\<close>

type_synonym worksheet = "cell list list"

definition sheet_width :: "worksheet \<Rightarrow> nat" where
  "sheet_width ws = foldr (\<lambda>row w. max (length row) w) ws 0"

text \<open>
  Modelled from the spec: the library function \<^verbatim>\<open>XLSX.utils.sheet_to_json\<close> is not part of
  the repository; the source calls it with \<^verbatim>\<open>{ header: 1, defval: "" }\<close>. The spec has the
  extractor produce, for each sheet, ``a rectangular sequence of rows'', ``using an empty
  string for any blank/undefined cell'': extraction fills every row of the worksheet with
  empty strings up to the width of the sheet. A sheet name without a worksheet gives no
  rows.
\<close>

definition xlsx_sheet_to_json :: "worksheet option \<Rightarrow> cell list list option" where
  "xlsx_sheet_to_json worksheet =
     (case worksheet of
        None \<Rightarrow> Some []
      | Some ws \<Rightarrow>
          Some (map (\<lambda>row. row @ replicate (sheet_width ws - length row) (Str [])) ws))"


text \<open>The five substitutions of \<open>escapeXml\<close>, in the order the source applies them.\<close>

definition entities :: "(jschar \<times> jsstring) list" where
  "entities =
     [(ch CHR ''&'', lit ''&amp;''), (ch CHR ''<'', lit ''&lt;''), (ch CHR ''>'', lit ''&gt;''),
      (ch CHR 0x22, lit ''&quot;''), (ch CHR 0x27, lit ''&apos;'')]"

definition escape_char :: "jschar \<Rightarrow> jsstring" where
  "escape_char c = (case map_of entities c of Some e \<Rightarrow> e | None \<Rightarrow> [c])"

text \<open>A string matches \<^verbatim>\<open>^[A-Za-z_][A-Za-z0-9_-]*$\<close>.\<close>

definition valid_tag :: "jsstring \<Rightarrow> bool" where
  "valid_tag t = (case t of [] \<Rightarrow> False | c # cs \<Rightarrow> start_char c \<and> list_all name_char cs)"

text \<open>
  The \<^verbatim>\<open><Sheet name="..">\<close> opening tags of a document, read off the text from left to
  right: each gives the attribute value up to its closing quote.
\<close>

definition sheet_open :: jsstring where
  "sheet_open = lit ''<Sheet name=\"''"

fun sheet_elements :: "jsstring \<Rightarrow> jsstring list" where
  "sheet_elements [] = []"
| "sheet_elements (c # cs) =
     (if prefix sheet_open (c # cs)
      then [takeWhile (\<lambda>x. x \<noteq> ch CHR 0x22) (drop (length sheet_open) (c # cs))]
      else []) @ sheet_elements cs"

text \<open>
  The selection names loaded sheets only, unless the sheet list has been emptied.
\<close>

definition selection_within :: "state \<Rightarrow> bool" where
  "selection_within st \<longleftrightarrow>
     sheets st = [] \<or> fset (selectedSheets st) \<subseteq> set (map name (sheets st))"

text \<open>A row padded with empty-string cells up to the length of the header row.\<close>

definition pad_row :: "cell list \<Rightarrow> cell list \<Rightarrow> cell list" where
  "pad_row headers row = row @ replicate (length headers - length row) (Str [])"

section \<open>Escaping\<close>

lemma replace_all_append: "replace_all c r (xs @ ys) = replace_all c r xs @ replace_all c r ys"
  by (simp add: replace_all_def)

lemma replace_all_Nil: "replace_all c r [] = []"
  by (simp add: replace_all_def)

lemma replace_all_concat:
  "replace_all c r (concat xss) = concat (map (replace_all c r) xss)"
  by (induction xss) (simp_all add: replace_all_append replace_all_Nil)

lemma escapeXml_Nil: "escapeXml [] = []"
  by (simp add: escapeXml_def replace_all_def)

lemma escapeXml_append: "escapeXml (xs @ ys) = escapeXml xs @ escapeXml ys"
  by (simp add: escapeXml_def replace_all_append)

lemma escapeXml_single: "escapeXml [c] = escape_char c"
  by (simp add: escapeXml_def escape_char_def entities_def replace_all_def lit_def ch_def)

lemma escapeXml_single_pass: "escapeXml str = concat (map escape_char str)"
proof (induction str)
  case Nil
  show ?case by (simp add: escapeXml_Nil)
next
  case (Cons c cs)
  have "escapeXml (c # cs) = escapeXml [c] @ escapeXml cs"
    using escapeXml_append [of "[c]" cs] by simp
  then show ?case by (simp add: escapeXml_single Cons.IH)
qed

lemma escape_char_cases:
  "escape_char c = lit ''&amp;'' \<and> c = ch CHR ''&'' \<or>
   escape_char c = lit ''&lt;'' \<and> c = ch CHR ''<'' \<or>
   escape_char c = lit ''&gt;'' \<and> c = ch CHR ''>'' \<or>
   escape_char c = lit ''&quot;'' \<and> c = ch CHR 0x22 \<or>
   escape_char c = lit ''&apos;'' \<and> c = ch CHR 0x27 \<or>
   escape_char c = [c] \<and> c \<notin> fst ` set entities"
  by (simp add: escape_char_def entities_def lit_def ch_def)

section \<open>Tag names\<close>

lemma underscore_chars: "name_char (ch CHR ''_'')" "start_char (ch CHR ''_'')"
  by (simp_all add: name_char_def start_char_def)

lemma start_char_name_char: "start_char c \<Longrightarrow> name_char c"
  by (auto simp: name_char_def start_char_def)

lemma replace_invalid_Nil: "replace_invalid [] = []"
  by (simp add: replace_invalid_def)

lemma replace_invalid_Cons:
  "replace_invalid (c # cs) = (if name_char c then c else ch CHR ''_'') # replace_invalid cs"
  by (simp add: replace_invalid_def lit_def)

lemma replace_invalid_name_chars: "list_all name_char (replace_invalid tag)"
  by (induction tag) (simp_all add: replace_invalid_Nil replace_invalid_Cons underscore_chars)

lemma replace_invalid_fixed: "list_all name_char tag \<Longrightarrow> replace_invalid tag = tag"
  by (induction tag) (simp_all add: replace_invalid_Nil replace_invalid_Cons)

lemma replace_invalid_empty: "replace_invalid tag = [] \<longleftrightarrow> tag = []"
  by (cases tag) (simp_all add: replace_invalid_Nil replace_invalid_Cons)

lemma replace_leading_valid:
  "t \<noteq> [] \<Longrightarrow> list_all name_char t \<Longrightarrow> valid_tag (replace_leading t)"
  by (cases t) (simp_all add: valid_tag_def lit_def underscore_chars)

lemma replace_leading_fixed: "valid_tag t \<Longrightarrow> replace_leading t = t"
  by (cases t) (simp_all add: valid_tag_def)

lemma valid_tag_name_chars: "valid_tag t \<Longrightarrow> list_all name_char t"
  by (cases t) (simp_all add: valid_tag_def start_char_name_char)

lemma sanitizeTagName_valid: "tag \<noteq> [] \<Longrightarrow> valid_tag (sanitizeTagName tag)"
  by (simp add: sanitizeTagName_def replace_leading_valid replace_invalid_name_chars
      replace_invalid_empty)

lemma sanitizeTagName_Nil: "sanitizeTagName [] = []"
  by (simp add: sanitizeTagName_def replace_invalid_Nil)

lemma sanitizeTagName_fixed: "valid_tag t \<Longrightarrow> sanitizeTagName t = t"
  by (simp add: sanitizeTagName_def replace_invalid_fixed valid_tag_name_chars
      replace_leading_fixed)

lemma digit_name_char: "n < 10 \<Longrightarrow> name_char (ch CHR ''0'' + of_nat n)"
proof -
  assume "n < 10"
  then have "n \<in> {0, 1, 2, 3, 4, 5, 6, 7, 8, 9}" by auto
  then show ?thesis
    by (auto simp: name_char_def ch_def)
qed

lemma decimal_name_chars: "list_all name_char (decimal n)"
proof (induction n rule: decimal.induct)
  case (1 n)
  show ?case
  proof (cases "n < 10")
    case True
    then show ?thesis by (simp add: decimal.simps [of n] digit_name_char)
  next
    case False
    with 1 show ?thesis by (simp add: decimal.simps [of n] digit_name_char)
  qed
qed

lemma Column_valid: "valid_tag (lit ''Column'' @ decimal n)"
  using decimal_name_chars [of n]
  by (simp add: valid_tag_def lit_def start_char_def name_char_def ch_def)

section \<open>The loops of the serializer as concatenations\<close>

lemma emit_cell_append: "emit_cell headers xml i c = xml @ emit_cell headers [] i c"
  by (simp add: emit_cell_def Let_def)

lemma forEach_cells_concat:
  "forEach_cells headers i row xml =
     xml @ concat (map (\<lambda>(j, c). emit_cell headers [] j c) (List.enumerate i row))"
proof (induction row arbitrary: i xml)
  case Nil
  show ?case by simp
next
  case (Cons c row)
  show ?case
    by (simp add: Cons.IH emit_cell_append [of headers xml])
qed

lemma emit_row_append: "emit_row headers xml row = xml @ emit_row headers [] row"
  by (simp add: emit_row_def forEach_cells_concat)

lemma rows_loop_concat:
  "rows_loop headers rows i xml = xml @ concat (map (emit_row headers []) (drop i rows))"
proof (induction headers rows i xml rule: rows_loop.induct)
  case (1 headers rows i xml)
  show ?case
  proof (cases "i < length rows")
    case True
    have "drop i rows = rows ! i # drop (Suc i) rows"
      using True by (simp add: Cons_nth_drop_Suc)
    with True 1 show ?thesis
      by (simp add: rows_loop.simps [of headers rows i] emit_row_append [of headers xml])
  next
    case False
    then show ?thesis by (simp add: rows_loop.simps [of headers rows i])
  qed
qed

lemma emit_sheet_append: "emit_sheet xml sheet = xml @ emit_sheet [] sheet"
  by (simp add: emit_sheet_def Let_def rows_loop_concat)

lemma foldl_emit_sheet:
  "foldl emit_sheet xml ss = xml @ concat (map (emit_sheet []) ss)"
proof (induction ss arbitrary: xml)
  case Nil
  show ?case by simp
next
  case (Cons s ss)
  show ?case by (simp add: Cons.IH emit_sheet_append [of xml])
qed

lemma some_nonempty_iff: "some_nonempty row \<longleftrightarrow> (\<exists>c \<in> set row. c \<noteq> Str [])"
  by (simp add: some_nonempty_def list_ex_iff)

lemma emit_sheet_rows:
  "data sheet = headers # rows \<Longrightarrow>
   emit_sheet [] sheet =
     lit ''  <Sheet name=\"'' @ escapeXml (name sheet) @ lit ''\">\<newline>'' @
     concat (map (emit_row headers []) rows) @ lit ''  </Sheet>\<newline>''"
  by (simp add: emit_sheet_def Let_def rows_loop_concat)

lemma emit_sheet_no_rows:
  "length (data sheet) \<le> 1 \<Longrightarrow>
   emit_sheet [] sheet =
     lit ''  <Sheet name=\"'' @ escapeXml (name sheet) @ lit ''\">\<newline>'' @ lit ''  </Sheet>\<newline>''"
  by (simp add: emit_sheet_def Let_def rows_loop_concat)

section \<open>Reading the sheet elements of a document\<close>

lemma sheet_elements_skip:
  "ch CHR ''<'' \<notin> set s \<Longrightarrow> sheet_elements (s @ t) = sheet_elements t"
proof (induction s)
  case Nil
  show ?case by simp
next
  case (Cons c s)
  then have "c \<noteq> ch CHR ''<''" by auto
  then have "\<not> prefix sheet_open (c # s @ t)"
    by (auto simp: sheet_open_def lit_def)
  with Cons show ?case by simp
qed

lemma prefix_blocked:
  assumes "prefix p (tag @ y # t)" and "y \<notin> set p"
  shows "prefix p tag"
proof -
  from assms(1) consider "prefix p tag" | us where "p = tag @ us" "prefix us (y # t)"
    by (auto simp: prefix_append)
  then show ?thesis
  proof cases
    case 1
    then show ?thesis .
  next
    case 2
    with assms(2) have "us = []" by (cases us) auto
    with 2 show ?thesis by simp
  qed
qed

lemma name_chars_no_open:
  assumes "list_all name_char tag"
  shows "\<not> prefix sheet_open (ch CHR ''<'' # tag @ ch CHR ''>'' # t)"
proof
  assume "prefix sheet_open (ch CHR ''<'' # tag @ ch CHR ''>'' # t)"
  then have "prefix (lit ''Sheet name=\"'') (tag @ ch CHR ''>'' # t)"
    by (simp add: sheet_open_def lit_def)
  then have "prefix (lit ''Sheet name=\"'') tag"
    by (rule prefix_blocked) (simp add: lit_def ch_def)
  then have "set (lit ''Sheet name=\"'') \<subseteq> set tag"
    by (rule set_mono_prefix)
  then have "ch CHR '' '' \<in> set tag" by (auto simp: lit_def)
  with assms have "name_char (ch CHR '' '')" by (auto simp: list_all_iff)
  then show False by (simp add: name_char_def ch_def)
qed

lemma name_chars_no_lt: "list_all name_char tag \<Longrightarrow> ch CHR ''<'' \<notin> set tag"
  by (auto simp: list_all_iff name_char_def ch_def)

lemma replace_leading_name_chars:
  "list_all name_char t \<Longrightarrow> list_all name_char (replace_leading t)"
  by (cases t) (simp_all add: lit_def underscore_chars)

lemma tagName_name_chars: "list_all name_char (tagName headers i)"
proof -
  have "list_all name_char (lit ''Column'' @ decimal (i + 1))"
    by (rule valid_tag_name_chars) (rule Column_valid)
  then show ?thesis
    by (simp add: tagName_def sanitizeTagName_def replace_leading_name_chars
        replace_invalid_name_chars)
qed

lemma escape_char_no_markup:
  "x \<in> set (escape_char c) \<Longrightarrow>
     x \<noteq> ch CHR ''<'' \<and> x \<noteq> ch CHR ''>'' \<and> x \<noteq> ch CHR 0x22 \<and> x \<noteq> ch CHR 0x27"
  using escape_char_cases [of c] by (auto simp: lit_def ch_def entities_def)

lemma escapeXml_no_markup:
  "x \<in> set (escapeXml str) \<Longrightarrow>
     x \<noteq> ch CHR ''<'' \<and> x \<noteq> ch CHR ''>'' \<and> x \<noteq> ch CHR 0x22 \<and> x \<noteq> ch CHR 0x27"
  using escape_char_no_markup by (auto simp: escapeXml_single_pass)

lemma escapeXml_no_lt: "ch CHR ''<'' \<notin> set (escapeXml str)"
  using escapeXml_no_markup by blast

lemma sheet_elements_open_tag:
  assumes "list_all name_char tag"
  shows "sheet_elements (ch CHR ''<'' # tag @ ch CHR ''>'' # t) = sheet_elements t"
proof -
  have "sheet_elements (ch CHR ''<'' # tag @ ch CHR ''>'' # t) = sheet_elements (tag @ ch CHR ''>'' # t)"
    using name_chars_no_open [OF assms] by simp
  also have "\<dots> = sheet_elements ([ch CHR ''>''] @ t)"
    using sheet_elements_skip [OF name_chars_no_lt [OF assms]] by simp
  also have "\<dots> = sheet_elements t"
    by (rule sheet_elements_skip) (simp add: ch_def)
  finally show ?thesis .
qed

lemma sheet_elements_close_tag:
  "sheet_elements (ch CHR ''<'' # ch CHR ''/'' # tag @ t) = sheet_elements (tag @ t)"
  by (simp add: sheet_open_def lit_def ch_def)

lemma emit_cell_shape:
  "emit_cell headers [] i c @ t =
     lit ''      '' @ (ch CHR ''<'' # tagName headers i @ ch CHR ''>'' #
       (escapeXml (js_String c) @
         (ch CHR ''<'' # ch CHR ''/'' # tagName headers i @ (lit ''>\<newline>'' @ t))))"
  by (simp add: emit_cell_def Let_def lit_def)

lemma sheet_elements_cell:
  "sheet_elements (emit_cell headers [] i c @ t) = sheet_elements t"
proof -
  let ?tag = "tagName headers i"
  let ?close = "ch CHR ''<'' # ch CHR ''/'' # ?tag @ (lit ''>\<newline>'' @ t)"
  let ?val = "escapeXml (js_String c) @ ?close"
  let ?elem = "ch CHR ''<'' # ?tag @ ch CHR ''>'' # ?val"
  have tag: "list_all name_char ?tag" by (rule tagName_name_chars)
  have "sheet_elements (emit_cell headers [] i c @ t) = sheet_elements (lit ''      '' @ ?elem)"
    by (simp only: emit_cell_shape)
  also have "\<dots> = sheet_elements ?elem"
    by (rule sheet_elements_skip) (simp add: lit_def ch_def)
  also have "\<dots> = sheet_elements ?val"
    by (rule sheet_elements_open_tag [OF tag])
  also have "\<dots> = sheet_elements ?close"
    by (rule sheet_elements_skip [OF escapeXml_no_lt])
  also have "\<dots> = sheet_elements (?tag @ (lit ''>\<newline>'' @ t))"
    by (rule sheet_elements_close_tag)
  also have "\<dots> = sheet_elements (lit ''>\<newline>'' @ t)"
    by (rule sheet_elements_skip [OF name_chars_no_lt [OF tag]])
  also have "\<dots> = sheet_elements t"
    by (rule sheet_elements_skip) (simp add: lit_def ch_def)
  finally show ?thesis .
qed

lemma sheet_elements_cells:
  "sheet_elements (concat (map (\<lambda>(j, c). emit_cell headers [] j c) ics) @ t) = sheet_elements t"
  by (induction ics) (auto simp: sheet_elements_cell)

lemma sheet_elements_row:
  "sheet_elements (emit_row headers [] row @ t) = sheet_elements t"
proof (cases "some_nonempty row")
  case True
  have "sheet_elements (lit ''    <Row>\<newline>'' @ u) = sheet_elements u" for u
    by (simp add: lit_def ch_def sheet_open_def)
  moreover have "sheet_elements (lit ''    </Row>\<newline>'' @ u) = sheet_elements u" for u
    by (simp add: lit_def ch_def sheet_open_def)
  ultimately show ?thesis
    using True by (simp add: emit_row_def forEach_cells_concat sheet_elements_cells)
next
  case False
  then show ?thesis by (simp add: emit_row_def)
qed

lemma sheet_elements_rows:
  "sheet_elements (concat (map (emit_row headers []) rows) @ t) = sheet_elements t"
  by (induction rows) (simp_all add: sheet_elements_row)

lemma sheet_elements_sheet:
  "sheet_elements (emit_sheet [] s @ t) = escapeXml (name s) # sheet_elements t"
proof -
  let ?esc = "escapeXml (name s)"
  let ?rows = "if length (data s) > 0
               then concat (map (emit_row (data s ! 0) []) (drop 1 (data s))) else []"
  let ?tail = "lit ''  </Sheet>\<newline>'' @ t"
  let ?after = "?esc @ (ch CHR 0x22 # lit ''>\<newline>'' @ ?rows @ ?tail)"
  have shape: "emit_sheet [] s @ t = lit ''  '' @ sheet_open @ ?after"
    by (simp add: emit_sheet_def Let_def rows_loop_concat sheet_open_def lit_def)
  have quote: "takeWhile (\<lambda>x. x \<noteq> ch CHR 0x22) ?after = ?esc"
    using escapeXml_no_markup [of _ "name s"] by (simp add: takeWhile_append2)
  have tail: "sheet_elements ?tail = sheet_elements t"
    by (simp add: lit_def ch_def sheet_open_def)
  have rows: "sheet_elements (?rows @ ?tail) = sheet_elements ?tail"
    using sheet_elements_rows [of "data s ! 0" "drop 1 (data s)" ?tail] by simp
  have "sheet_elements (lit ''Sheet name=\"'' @ ?after) = sheet_elements ?after"
    by (rule sheet_elements_skip) (simp add: lit_def ch_def)
  also have "\<dots> = sheet_elements (ch CHR 0x22 # lit ''>\<newline>'' @ ?rows @ ?tail)"
    by (rule sheet_elements_skip [OF escapeXml_no_lt])
  also have "\<dots> = sheet_elements (?rows @ ?tail)"
    using sheet_elements_skip [of "ch CHR 0x22 # lit ''>\<newline>''" "?rows @ ?tail"]
    by (simp add: lit_def ch_def)
  finally have rest: "sheet_elements (lit ''Sheet name=\"'' @ ?after) = sheet_elements t"
    by (simp only: rows tail)
  have "sheet_elements (sheet_open @ ?after) = ?esc # sheet_elements (lit ''Sheet name=\"'' @ ?after)"
    using quote by (simp add: sheet_open_def lit_def)
  then have "sheet_elements (sheet_open @ ?after) = ?esc # sheet_elements t"
    by (simp only: rest)
  moreover have "sheet_elements (lit ''  '' @ sheet_open @ ?after) = sheet_elements (sheet_open @ ?after)"
    by (rule sheet_elements_skip) (simp add: lit_def ch_def)
  ultimately show ?thesis by (simp only: shape)
qed

lemma sheet_elements_sheets:
  "sheet_elements (concat (map (emit_sheet []) ss) @ t) = map (\<lambda>s. escapeXml (name s)) ss @ sheet_elements t"
  by (induction ss) (simp_all add: sheet_elements_sheet)

lemma sheet_elements_prolog: "sheet_elements (xml_prolog @ t) = sheet_elements t"
  by (simp add: xml_prolog_def lit_def ch_def sheet_open_def)

lemma sheet_elements_epilog: "sheet_elements (lit ''</Workbook>'') = []"
  by (simp add: lit_def ch_def sheet_open_def)

lemma sheet_elements_document:
  "sheet_elements (xml_prolog @ concat (map (emit_sheet []) ss) @ lit ''</Workbook>'') =
     map (\<lambda>s. escapeXml (name s)) ss"
  by (simp add: sheet_elements_prolog sheet_elements_sheets sheet_elements_epilog)

section \<open>Conversion\<close>

lemma convertToXml_failure:
  "sheets st = [] \<or> selectedSheets st = {||} \<Longrightarrow> convertToXml st = (st, [Toast NoSheetsSelected])"
  by (auto simp: convertToXml_def)

lemma convertToXml_success:
  "sheets st \<noteq> [] \<Longrightarrow> selectedSheets st \<noteq> {||} \<Longrightarrow>
   convertToXml st =
     (st\<lparr>xmlOutput := xml_prolog @
          concat (map (emit_sheet []) (filter (\<lambda>s. name s |\<in>| selectedSheets st) (sheets st))) @
          lit ''</Workbook>'',
        processing := False\<rparr>,
      [Toast (ConversionComplete (fcard (selectedSheets st)))])"
  by (simp add: convertToXml_def Let_def foldl_emit_sheet fcard_0_eq)

lemma fcard_single: "fcard {|x|} = 1"
  by (simp add: fcard_finsert_if)

subsection \<open>The selection in the states the component reaches\<close>

text \<open>
  Every handler keeps \<open>selection_within\<close>: an upload sets the sheets and selects all
  their names, the checkboxes toggle names of loaded sheets, the two buttons empty the
  sheet list. In such a state a selection that matches no sheet means an empty sheet list
  or an empty selection, which the guard of the conversion catches.
\<close>

lemma selection_within_initial: "selection_within initial_state"
  by (simp add: selection_within_def initial_state_def)

lemma selection_within_upload:
  "selection_within st \<Longrightarrow>
   selection_within (fst (handleFileUpload read sheet_to_json uploadedFile st))"
  by (simp add: selection_within_def handleFileUpload_def fset_of_list.rep_eq
      split: option.splits)

lemma selection_within_toggle:
  "selection_within st \<Longrightarrow> s \<in> set (sheets st) \<Longrightarrow>
   selection_within (toggleSheet (name s) st)"
  by (auto simp: selection_within_def toggleSheet_def)

lemma selection_within_changeFile: "selection_within (changeFile st)"
  by (simp add: selection_within_def changeFile_def)

lemma selection_within_convert:
  "selection_within st \<Longrightarrow> selection_within (fst (convertToXml st))"
  by (auto simp: selection_within_def convertToXml_def Let_def)

lemma unmatched_selection_within:
  assumes "selection_within st"
    and "\<forall>s \<in> set (sheets st). name s |\<notin>| selectedSheets st"
  shows "convertToXml st = (st, [Toast NoSheetsSelected])"
proof -
  have "sheets st = [] \<or> selectedSheets st = {||}"
  proof (cases "sheets st = []")
    case True
    then show ?thesis by simp
  next
    case False
    with assms(1) have "fset (selectedSheets st) \<subseteq> set (map name (sheets st))"
      by (simp add: selection_within_def)
    with assms(2) have "\<And>x. x |\<notin>| selectedSheets st" by auto
    then show ?thesis by auto
  qed
  then show ?thesis by (rule convertToXml_failure)
qed

lemma convertToXml_fails_iff:
  "(convertToXml st = (st, [Toast NoSheetsSelected])) =
     (sheets st = [] \<or> selectedSheets st = {||})"
proof (cases "sheets st = [] \<or> selectedSheets st = {||}")
  case True
  then show ?thesis by (simp add: convertToXml_failure)
next
  case False
  then show ?thesis by (simp add: convertToXml_success)
qed

lemma reachable_selection_within:
  "reachable read sheet_to_json st \<Longrightarrow> selection_within st"
proof (induction rule: reachable.induct)
  case initial
  show ?case by (rule selection_within_initial)
next
  case (upload_started st f)
  then show ?case by (simp add: selection_within_def)
next
  case (upload st uploadedFile)
  then show ?case by (simp add: selection_within_upload)
next
  case (toggle st sheet)
  then show ?case by (simp add: selection_within_toggle)
next
  case (reset st)
  show ?case by (rule selection_within_changeFile)
next
  case (convert st)
  then show ?case by (simp add: selection_within_convert)
qed

text \<open>
  Claim C1. The conversion fails with the notification \<open>NoSheetsSelected\<close> (the
  empty-selection error), storing no document and returning the state as it was, whenever
  the selection set is empty; and, in every state of the component, also whenever the
  selection set is not empty but no sheet of the list has its name in it.
\<close>

theorem empty_selection_fails:
  "(selectedSheets st = {||} \<longrightarrow> convertToXml st = (st, [Toast NoSheetsSelected])) \<and>
   (reachable read sheet_to_json st \<longrightarrow>
    selectedSheets st \<noteq> {||} \<and> (\<forall>s \<in> set (sheets st). name s |\<notin>| selectedSheets st) \<longrightarrow>
      convertToXml st = (st, [Toast NoSheetsSelected]))"
proof (intro conjI impI)
  assume "selectedSheets st = {||}"
  then show "convertToXml st = (st, [Toast NoSheetsSelected])"
    by (simp add: convertToXml_failure)
next
  assume r: "reachable read sheet_to_json st"
    and "selectedSheets st \<noteq> {||} \<and> (\<forall>s \<in> set (sheets st). name s |\<notin>| selectedSheets st)"
  then have "\<forall>s \<in> set (sheets st). name s |\<notin>| selectedSheets st" by simp
  with reachable_selection_within [OF r]
  show "convertToXml st = (st, [Toast NoSheetsSelected])"
    by (rule unmatched_selection_within)
qed

text \<open>
  The second case arises after a sheet has been loaded and the file changed: the sheet list
  is empty and the selection still names the sheet. The first case is shown with a loaded
  sheet and nothing selected.
\<close>

theorem empty_selection_fails_witness:
  "reachable (\<lambda>bytes. Some \<lparr>SheetNames = [lit ''Sheet1''], Sheets = (\<lambda>n. Some ())\<rparr>)
     (\<lambda>ws. Some [[Str (lit ''h'')], [Str (lit ''v'')]])
     \<lparr>loaded_file = None, sheets = [], selectedSheets = {|lit ''Sheet1''|}, xmlOutput = [],
       processing = False\<rparr> \<and>
   convertToXml \<lparr>loaded_file = None, sheets = [], selectedSheets = {|lit ''Sheet1''|},
                  xmlOutput = [], processing = False\<rparr> =
     (\<lparr>loaded_file = None, sheets = [], selectedSheets = {|lit ''Sheet1''|}, xmlOutput = [],
       processing = False\<rparr>, [Toast NoSheetsSelected]) \<and>
   convertToXml \<lparr>loaded_file = None,
                  sheets = [\<lparr>name = lit ''Sheet1'', data = [[Str (lit ''h'')], [Str (lit ''v'')]]\<rparr>],
                  selectedSheets = {||}, xmlOutput = [], processing = False\<rparr> =
     (\<lparr>loaded_file = None,
       sheets = [\<lparr>name = lit ''Sheet1'', data = [[Str (lit ''h'')], [Str (lit ''v'')]]\<rparr>],
       selectedSheets = {||}, xmlOutput = [], processing = False\<rparr>, [Toast NoSheetsSelected])"
proof -
  let ?read = "\<lambda>bytes :: 8 word list. Some \<lparr>SheetNames = [lit ''Sheet1''], Sheets = (\<lambda>n. Some ())\<rparr>"
  let ?stj = "\<lambda>ws :: unit option. Some [[Str (lit ''h'')], [Str (lit ''v'')]]"
  let ?f = "\<lparr>filename = lit ''a.csv'', mimetype = lit ''text/csv'', arrayBuffer = Some []\<rparr>"
  let ?stale = "\<lparr>loaded_file = None, sheets = [], selectedSheets = {|lit ''Sheet1''|},
                 xmlOutput = [], processing = False\<rparr>"
  let ?none = "\<lparr>loaded_file = None,
       sheets = [\<lparr>name = lit ''Sheet1'', data = [[Str (lit ''h'')], [Str (lit ''v'')]]\<rparr>],
       selectedSheets = {||}, xmlOutput = [], processing = False\<rparr>"
  have "reachable ?read ?stj (changeFile (fst (handleFileUpload ?read ?stj (Some ?f) initial_state)))"
    by (intro reachable.reset reachable.upload reachable.initial)
  moreover have "changeFile (fst (handleFileUpload ?read ?stj (Some ?f) initial_state)) = ?stale"
    by (simp add: changeFile_def handleFileUpload_def initial_state_def validTypes_def)
  ultimately have r: "reachable ?read ?stj ?stale" by simp
  show ?thesis
    using r empty_selection_fails [of ?stale ?read ?stj] empty_selection_fails [of ?none ?read ?stj]
    by simp
qed

section \<open>Escaping of cell text\<close>

lemma escape_char_entity: "(c, e) \<in> set entities \<Longrightarrow> escape_char c = e"
  by (auto simp: escape_char_def entities_def ch_def)

lemma escapeXml_contains:
  assumes "(c, e) \<in> set entities" and "c \<in> set str"
  shows "sublist e (escapeXml str)"
proof -
  from assms(2) obtain as bs where "str = as @ c # bs"
    by (auto dest: split_list)
  then have "escapeXml str = escapeXml as @ e @ escapeXml bs"
    using escapeXml_append [of as "c # bs"] escapeXml_append [of "[c]" bs]
    by (simp add: escapeXml_single escape_char_entity [OF assms(1)])
  then show ?thesis by (auto simp: sublist_def)
qed

lemma amp_suffix_entity:
  "suffix (ch CHR ''&'' # zs) (escapeXml str) \<Longrightarrow>
     \<exists>(c, e) \<in> set entities. prefix e (ch CHR ''&'' # zs)"
proof (induction str)
  case Nil
  then show ?case by (simp add: escapeXml_Nil)
next
  case (Cons c cs)
  have split: "escapeXml (c # cs) = escape_char c @ escapeXml cs"
    using escapeXml_append [of "[c]" cs] by (simp add: escapeXml_single)
  from escape_char_cases [of c] Cons show ?case
    unfolding split
    by (auto simp: suffix_Cons lit_def entities_def ch_def)
qed

text \<open>
  Claim C2. \<open>escapeXml\<close> applies the five substitutions \<^verbatim>\<open>&\<close>, \<^verbatim>\<open><\<close>,
  \<^verbatim>\<open>>\<close>, \<^verbatim>\<open>"\<close>, \<^verbatim>\<open>'\<close> in this order. For every input, each of the five
  characters that occurs in it has its entity in the result; the result contains none of
  \<^verbatim>\<open><\<close>, \<^verbatim>\<open>>\<close>, \<^verbatim>\<open>"\<close>, \<^verbatim>\<open>'\<close>; and every \<^verbatim>\<open>&\<close> of the result is the
  first character of one of the five entities.
\<close>

theorem escapeXml_escapes:
  "escapeXml str = foldl (\<lambda>s (c, e). replace_all c e s) str entities \<and>
   (\<forall>(c, e) \<in> set entities. c \<in> set str \<longrightarrow> sublist e (escapeXml str)) \<and>
   ch CHR ''<'' \<notin> set (escapeXml str) \<and> ch CHR ''>'' \<notin> set (escapeXml str) \<and>
   ch CHR 0x22 \<notin> set (escapeXml str) \<and> ch CHR 0x27 \<notin> set (escapeXml str) \<and>
   (\<forall>ys zs. escapeXml str = ys @ ch CHR ''&'' # zs \<longrightarrow>
      (\<exists>(c, e) \<in> set entities. prefix e (ch CHR ''&'' # zs)))"
proof (intro conjI)
  show "escapeXml str = foldl (\<lambda>s (c, e). replace_all c e s) str entities"
    by (simp add: escapeXml_def entities_def)
  show "\<forall>(c, e) \<in> set entities. c \<in> set str \<longrightarrow> sublist e (escapeXml str)"
    using escapeXml_contains by blast
  show "ch CHR ''<'' \<notin> set (escapeXml str)" "ch CHR ''>'' \<notin> set (escapeXml str)"
    "ch CHR 0x22 \<notin> set (escapeXml str)" "ch CHR 0x27 \<notin> set (escapeXml str)"
    using escapeXml_no_markup [of _ str] by blast+
  show "\<forall>ys zs. escapeXml str = ys @ ch CHR ''&'' # zs \<longrightarrow>
      (\<exists>(c, e) \<in> set entities. prefix e (ch CHR ''&'' # zs))"
  proof (intro allI impI)
    fix ys zs
    assume "escapeXml str = ys @ ch CHR ''&'' # zs"
    then have "suffix (ch CHR ''&'' # zs) (escapeXml str)"
      by (simp add: suffix_def)
    then show "\<exists>(c, e) \<in> set entities. prefix e (ch CHR ''&'' # zs)"
      by (rule amp_suffix_entity)
  qed
qed

theorem escapeXml_escapes_witness:
  "ch CHR ''<'' \<in> set (lit ''x<y & z'') \<and> sublist (lit ''&lt;'') (escapeXml (lit ''x<y & z'')) \<and>
   sublist (lit ''&amp;'') (escapeXml (lit ''x<y & z'')) \<and>
   escapeXml (lit ''x<y & z'') = lit ''x&lt;y &amp; z'' \<and>
   prefix (lit ''&lt;'') (ch CHR ''&'' # lit ''lt;y &amp; z'')"
  using escapeXml_escapes [of "lit ''x<y & z''"]
  by (simp add: entities_def lit_def ch_def escapeXml_def replace_all_def)

section \<open>Derived tag names\<close>

lemma sanitizeTagName_nonempty: "h \<noteq> [] \<Longrightarrow> sanitizeTagName h \<noteq> []"
  using sanitizeTagName_valid [of h] by (auto simp: valid_tag_def)

text \<open>
  Claim C3. The tag name derived for a column whose header cell is a string (sanitized
  when the string is not empty, \<^verbatim>\<open>Column<N>\<close> when it is) or is absent matches
  \<^verbatim>\<open>^[A-Za-z_][A-Za-z0-9_-]*$\<close>; sanitizing a non-empty string never gives the empty
  string.
\<close>

theorem derived_tag_valid:
  "((i < length headers \<longrightarrow> (\<exists>h. headers ! i = Str h)) \<longrightarrow> valid_tag (tagName headers i)) \<and>
   (h \<noteq> [] \<longrightarrow> sanitizeTagName h \<noteq> [] \<and> valid_tag (sanitizeTagName h))"
proof (intro conjI impI)
  assume str: "i < length headers \<longrightarrow> (\<exists>h. headers ! i = Str h)"
  show "valid_tag (tagName headers i)"
  proof (cases "i < length headers \<and> truthy (headers ! i)")
    case True
    with str obtain s where "headers ! i = Str s" "s \<noteq> []" by auto
    with True show ?thesis by (simp add: tagName_def sanitizeTagName_valid)
  next
    case False
    then have "tagName headers i = lit ''Column'' @ decimal (i + 1)"
      by (auto simp: tagName_def)
    then show ?thesis by (simp only: Column_valid)
  qed
next
  assume "h \<noteq> []"
  then show "sanitizeTagName h \<noteq> []" by (rule sanitizeTagName_nonempty)
next
  assume "h \<noteq> []"
  then show "valid_tag (sanitizeTagName h)" by (rule sanitizeTagName_valid)
qed

theorem derived_tag_valid_witness:
  "tagName [Str (lit ''A&B''), Str []] 0 = lit ''A_B'' \<and>
   valid_tag (tagName [Str (lit ''A&B''), Str []] 0) \<and>
   valid_tag (tagName [Str (lit ''A&B''), Str []] 1) \<and>
   valid_tag (tagName [Str (lit ''A&B''), Str []] 2) \<and>
   sanitizeTagName (lit ''9 lives'') = lit ''__lives'' \<and>
   valid_tag (sanitizeTagName (lit ''9 lives''))"
  using derived_tag_valid [of 0 "[Str (lit ''A&B''), Str []]" "lit ''9 lives''"]
        derived_tag_valid [of 1 "[Str (lit ''A&B''), Str []]" "lit ''9 lives''"]
        derived_tag_valid [of 2 "[Str (lit ''A&B''), Str []]" "lit ''9 lives''"]
  by (simp add: tagName_def sanitizeTagName_def replace_invalid_def name_char_def
      start_char_def lit_def ch_def)

text \<open>
  Claim C9. Sanitizing a tag name twice gives the same result as sanitizing it once.
\<close>

theorem sanitizeTagName_idempotent: "sanitizeTagName (sanitizeTagName s) = sanitizeTagName s"
  by (cases "s = []") (simp_all add: sanitizeTagName_Nil sanitizeTagName_fixed sanitizeTagName_valid)

lemma decimal_examples:
  "decimal 7 = lit ''7'' \<and> decimal 12 = lit ''12'' \<and> decimal 100 = lit ''100''"
  by (simp add: decimal.simps lit_def ch_def)

lemma tagName_string_header:
  "i < length headers \<Longrightarrow> headers ! i = Str h \<Longrightarrow>
   tagName headers i = (if h = [] then lit ''Column'' @ decimal (i + 1) else sanitizeTagName h)"
  by (simp add: tagName_def)

lemma tagName_absent_header:
  "length headers \<le> i \<Longrightarrow> tagName headers i = lit ''Column'' @ decimal (i + 1)"
  by (simp add: tagName_def)

text \<open>
  Claim C6. The claim holds for a header cell that is a string and for an absent one
  (\<open>tagName_string_header\<close>, \<open>tagName_absent_header\<close>), but the source tests the
  header cell for truthiness, not for being the empty string. A header cell holding the
  number zero is neither empty nor absent; it is falsy, so the column is named
  \<^verbatim>\<open>Column1\<close>, where the claim gives the sanitized header \<^verbatim>\<open>_\<close>.
\<close>

theorem tagName_falsy_header:
  "tagName [NonStr False (lit ''0'')] 0 = lit ''Column1'' \<and>
   sanitizeTagName (js_String (NonStr False (lit ''0''))) = lit ''_''"
  by (simp add: tagName_def decimal.simps sanitizeTagName_def replace_invalid_def name_char_def
      start_char_def lit_def ch_def)

section \<open>Rows\<close>

lemma emit_row_Row:
  "emit_row headers xml row =
     (if \<forall>c \<in> set row. c = Str [] then xml
      else xml @ lit ''    <Row>\<newline>'' @
           concat (map (\<lambda>(i, c). emit_cell headers [] i c) (List.enumerate 0 row)) @
           lit ''    </Row>\<newline>'')"
  by (simp add: emit_row_def forEach_cells_concat some_nonempty_iff)

lemma emit_cell_element:
  "emit_cell headers [] i c =
     lit ''      <'' @ tagName headers i @ lit ''>'' @ escapeXml (js_String c) @
     lit ''</'' @ tagName headers i @ lit ''>\<newline>''"
  by (simp add: emit_cell_def Let_def)

lemma enumerate_index_map:
  "map (\<lambda>(i, c). f i c) (List.enumerate n row) = map (\<lambda>i. f i (row ! (i - n))) [n..<n + length row]"
  by (rule nth_equalityI) (simp_all add: nth_enumerate_eq)

lemma emit_row_row_element:
  "emit_row headers [] row = (if \<forall>c \<in> set row. c = Str [] then [] else row_element headers row)"
proof -
  have "map (\<lambda>(i, c). emit_cell headers [] i c) (List.enumerate 0 row) =
        map (\<lambda>i. cell_element headers i (row ! i)) [0..<length row]"
    using enumerate_index_map [of "\<lambda>i c. emit_cell headers [] i c" 0 row]
    by (simp add: emit_cell_element cell_element_def)
  then show ?thesis
    by (simp add: emit_row_Row row_element_def)
qed

lemma emit_sheet_sheet_element: "emit_sheet [] = sheet_element"
proof (rule ext)
  fix sheet
  show "emit_sheet [] sheet = sheet_element sheet"
  proof (cases "data sheet")
    case Nil
    then show ?thesis by (simp add: emit_sheet_def sheet_element_def)
  next
    case (Cons headers rows)
    have "emit_row headers [] =
          (\<lambda>row. if \<forall>c \<in> set row. c = Str [] then [] else row_element headers row)"
      by (rule ext) (rule emit_row_row_element)
    then show ?thesis
      using Cons by (simp add: emit_sheet_rows [OF Cons] sheet_element_def)
  qed
qed

text \<open>
  Claim C4. When a conversion stores a document, the document is the prolog, then for each
  selected sheet, in extraction order, its \<open>sheet_element\<close>, then the closing tag of the
  workbook. So, for every selected sheet, a data row (a row after the header row) is
  written as a \<^verbatim>\<open><Row>\<close> element exactly when at least one of its cells is not the empty
  string (a non-empty string, or a number or boolean); a row whose cells are all the empty
  string, or that has no cells, leaves no trace; and a written \<^verbatim>\<open><Row>\<close> wraps one
  child element per cell of the row.
\<close>

theorem rows_of_selected_sheets:
  assumes "sheets st \<noteq> []" and "selectedSheets st \<noteq> {||}"
  shows "xmlOutput (fst (convertToXml st)) =
           xml_prolog @
           concat (map sheet_element (filter (\<lambda>s. name s |\<in>| selectedSheets st) (sheets st))) @
           lit ''</Workbook>''"
  by (simp add: convertToXml_success [OF assms] emit_sheet_sheet_element)

theorem rows_of_selected_sheets_witness:
  "xmlOutput (fst (convertToXml
     \<lparr>loaded_file = None,
       sheets = [\<lparr>name = lit ''Sheet1'',
                  data = [[Str (lit ''Name''), Str (lit ''Age'')],
                          [Str (lit ''Alice''), Str (lit ''30'')], [Str [], Str []], []]\<rparr>,
                 \<lparr>name = lit ''Other'', data = [[Str (lit ''h'')], [Str (lit ''v'')]]\<rparr>],
       selectedSheets = {|lit ''Sheet1''|}, xmlOutput = [], processing = False\<rparr>)) =
   lit ''<?xml version=\"1.0\" encoding=\"UTF-8\"?>\<newline><Workbook>\<newline>'' @
   lit ''  <Sheet name=\"Sheet1\">\<newline>'' @
   lit ''    <Row>\<newline>      <Name>Alice</Name>\<newline>      <Age>30</Age>\<newline>    </Row>\<newline>'' @
   lit ''  </Sheet>\<newline></Workbook>''"
  using rows_of_selected_sheets
          [of "\<lparr>loaded_file = None,
                sheets = [\<lparr>name = lit ''Sheet1'',
                           data = [[Str (lit ''Name''), Str (lit ''Age'')],
                                   [Str (lit ''Alice''), Str (lit ''30'')], [Str [], Str []], []]\<rparr>,
                          \<lparr>name = lit ''Other'', data = [[Str (lit ''h'')], [Str (lit ''v'')]]\<rparr>],
                selectedSheets = {|lit ''Sheet1''|}, xmlOutput = [], processing = False\<rparr>"]
  by (simp add: sheet_element_def row_element_def cell_element_def xml_prolog_def tagName_def
      sanitizeTagName_def replace_invalid_def name_char_def start_char_def escapeXml_def
      replace_all_def lit_def ch_def)

section \<open>Rows shorter than the header row\<close>

lemma sheet_width_Cons: "sheet_width (row # ws) = max (length row) (sheet_width ws)"
  by (simp add: sheet_width_def)

lemma sheet_width_append: "sheet_width (xs @ ys) = max (sheet_width xs) (sheet_width ys)"
  by (induction xs) (simp_all add: sheet_width_Cons sheet_width_def)

lemma length_pad_row: "length row < length headers \<Longrightarrow> length (pad_row headers row) = length headers"
  by (simp add: pad_row_def)

lemma sheet_width_padded:
  assumes "length row < length headers"
  shows "sheet_width (headers # before @ pad_row headers row # after) =
         sheet_width (headers # before @ row # after)"
  using assms
  by (simp add: sheet_width_Cons sheet_width_append length_pad_row)

lemma header_within_width: "length headers \<le> sheet_width (headers # rows)"
  by (simp add: sheet_width_Cons)

lemma fill_padded:
  assumes "length row < length headers" and "length headers \<le> w"
  shows "pad_row headers row @ replicate (w - length (pad_row headers row)) (Str []) =
         row @ replicate (w - length row) (Str [])"
proof -
  have "replicate (length headers - length row) (Str []) @ replicate (w - length headers) (Str [])
          = replicate (w - length row) (Str [])"
    using assms by (simp add: replicate_add [symmetric])
  then show ?thesis
    using assms by (simp add: pad_row_def)
qed

lemma sheet_to_json_padded:
  assumes "length row < length headers"
  shows "xlsx_sheet_to_json (Some (headers # before @ pad_row headers row # after)) =
         xlsx_sheet_to_json (Some (headers # before @ row # after))"
proof -
  let ?w = "sheet_width (headers # before @ row # after)"
  have "length headers \<le> ?w" by (rule header_within_width)
  then show ?thesis
    using fill_padded [OF assms, of ?w]
    by (simp add: xlsx_sheet_to_json_def sheet_width_padded [OF assms])
qed

lemma extract_sheets_cong:
  "(\<And>m. stj (Sheets wb m) = stj (Sheets wb' m)) \<Longrightarrow>
   extract_sheets stj wb ns = extract_sheets stj wb' ns"
  by (induction ns) (simp_all split: option.splits)

lemma convertToXml_output_cong:
  "sheets a = sheets b \<Longrightarrow> selectedSheets a = selectedSheets b \<Longrightarrow> xmlOutput a = xmlOutput b \<Longrightarrow>
   xmlOutput (fst (convertToXml a)) = xmlOutput (fst (convertToXml b))"
  by (simp add: convertToXml_def Let_def)

lemma handleFileUpload_accepted:
  assumes "mimetype f \<in> set validTypes \<or> matches_extension (filename f)"
    and "arrayBuffer f = Some bytes" and "read bytes = Some wb"
  shows "handleFileUpload read stj (Some f) st =
     (case extract_sheets stj wb (SheetNames wb) of
        None \<Rightarrow>
          (st\<lparr>loaded_file := None, processing := False\<rparr>,
           [CallXlsxRead bytes, Toast ErrorReadingFile])
      | Some extractedSheets \<Rightarrow>
          (st\<lparr>loaded_file := Some f, sheets := extractedSheets,
              selectedSheets := fset_of_list (map name extractedSheets),
              processing := False\<rparr>,
           [CallXlsxRead bytes, Toast (FileLoadedSuccessfully (length extractedSheets))]))"
  using assms by (auto simp: handleFileUpload_def)

text \<open>
  Claim C7. A data row that holds fewer cells than the header row is read with empty
  strings for its missing trailing cells: a file in which the row is short and a file in
  which the same row is padded with empty-string cells up to the header length are
  extracted to the same sheets, and their conversions store the same document.
\<close>

theorem short_row_read_as_padded:
  assumes "length row < length headers"
    and "Sheets wb n = Some (headers # before @ row # after)"
    and "Sheets wb' = (Sheets wb)(n := Some (headers # before @ pad_row headers row # after))"
    and "SheetNames wb' = SheetNames wb"
    and "mimetype f \<in> set validTypes \<or> matches_extension (filename f)"
    and "arrayBuffer f = Some bytes" and "read bytes = Some wb"
    and "mimetype f' \<in> set validTypes \<or> matches_extension (filename f')"
    and "arrayBuffer f' = Some bytes'" and "read bytes' = Some wb'"
  shows "sheets (fst (handleFileUpload read xlsx_sheet_to_json (Some f) st)) =
         sheets (fst (handleFileUpload read xlsx_sheet_to_json (Some f') st)) \<and>
         xmlOutput (fst (convertToXml (fst (handleFileUpload read xlsx_sheet_to_json (Some f) st)))) =
         xmlOutput (fst (convertToXml (fst (handleFileUpload read xlsx_sheet_to_json (Some f') st))))"
proof -
  let ?up = "fst (handleFileUpload read xlsx_sheet_to_json (Some f) st)"
  let ?up' = "fst (handleFileUpload read xlsx_sheet_to_json (Some f') st)"
  have "xlsx_sheet_to_json (Sheets wb m) = xlsx_sheet_to_json (Sheets wb' m)" for m
    using assms(2,3) sheet_to_json_padded [OF assms(1), of before after] by simp
  then have "extract_sheets xlsx_sheet_to_json wb (SheetNames wb) =
      extract_sheets xlsx_sheet_to_json wb' (SheetNames wb)"
    by (rule extract_sheets_cong)
  then have ex: "extract_sheets xlsx_sheet_to_json wb' (SheetNames wb') =
      extract_sheets xlsx_sheet_to_json wb (SheetNames wb)"
    by (simp only: assms(4))
  have up: "?up = (case extract_sheets xlsx_sheet_to_json wb (SheetNames wb) of
        None \<Rightarrow> st\<lparr>loaded_file := None, processing := False\<rparr>
      | Some extractedSheets \<Rightarrow>
          st\<lparr>loaded_file := Some f, sheets := extractedSheets,
              selectedSheets := fset_of_list (map name extractedSheets),
              processing := False\<rparr>)"
    unfolding handleFileUpload_accepted [where read = read, OF assms(5,6,7)]
    by (simp split: option.splits)
  have up': "?up' = (case extract_sheets xlsx_sheet_to_json wb (SheetNames wb) of
        None \<Rightarrow> st\<lparr>loaded_file := None, processing := False\<rparr>
      | Some extractedSheets \<Rightarrow>
          st\<lparr>loaded_file := Some f', sheets := extractedSheets,
              selectedSheets := fset_of_list (map name extractedSheets),
              processing := False\<rparr>)"
    unfolding handleFileUpload_accepted [where read = read, OF assms(8,9,10)] ex
    by (simp split: option.splits)
  have s1: "sheets ?up = sheets ?up'"
    unfolding up up' by (simp split: option.splits)
  have s2: "selectedSheets ?up = selectedSheets ?up'"
    unfolding up up' by (simp split: option.splits)
  have s3: "xmlOutput ?up = xmlOutput ?up'"
    unfolding up up' by (simp split: option.splits)
  have "xmlOutput (fst (convertToXml ?up)) = xmlOutput (fst (convertToXml ?up'))"
    using s1 s2 s3 by (rule convertToXml_output_cong)
  with s1 show ?thesis by (rule conjI)
qed

text \<open>
  A sheet with the header row \<open>[A, B]\<close> and the data row \<open>[a]\<close>, uploaded once as it
  is and once with the row padded to \<open>[a, ""]\<close>: both documents hold the row with an
  empty \<^verbatim>\<open><B>\<close> element.
\<close>

theorem short_row_read_as_padded_witness:
  "xmlOutput (fst (convertToXml (fst (handleFileUpload
      (\<lambda>bytes. if bytes = []
         then Some \<lparr>SheetNames = [lit ''S''],
                     Sheets = (\<lambda>m. Some [[Str (lit ''A''), Str (lit ''B'')], [Str (lit ''a'')]])\<rparr>
         else Some \<lparr>SheetNames = [lit ''S''],
                     Sheets = (\<lambda>m. Some [[Str (lit ''A''), Str (lit ''B'')], [Str (lit ''a'')]])
                       (lit ''S'' := Some [[Str (lit ''A''), Str (lit ''B'')],
                                           [Str (lit ''a''), Str []]])\<rparr>)
      xlsx_sheet_to_json
      (Some \<lparr>filename = lit ''short.csv'', mimetype = lit ''text/csv'', arrayBuffer = Some []\<rparr>)
      initial_state)))) =
   lit ''<?xml version=\"1.0\" encoding=\"UTF-8\"?>\<newline><Workbook>\<newline>'' @
   lit ''  <Sheet name=\"S\">\<newline>'' @
   lit ''    <Row>\<newline>      <A>a</A>\<newline>      <B></B>\<newline>    </Row>\<newline>'' @
   lit ''  </Sheet>\<newline></Workbook>'' \<and>
   xmlOutput (fst (convertToXml (fst (handleFileUpload
      (\<lambda>bytes. if bytes = []
         then Some \<lparr>SheetNames = [lit ''S''],
                     Sheets = (\<lambda>m. Some [[Str (lit ''A''), Str (lit ''B'')], [Str (lit ''a'')]])\<rparr>
         else Some \<lparr>SheetNames = [lit ''S''],
                     Sheets = (\<lambda>m. Some [[Str (lit ''A''), Str (lit ''B'')], [Str (lit ''a'')]])
                       (lit ''S'' := Some [[Str (lit ''A''), Str (lit ''B'')],
                                           [Str (lit ''a''), Str []]])\<rparr>)
      xlsx_sheet_to_json
      (Some \<lparr>filename = lit ''padded.csv'', mimetype = lit ''text/csv'', arrayBuffer = Some [1]\<rparr>)
      initial_state)))) =
   lit ''<?xml version=\"1.0\" encoding=\"UTF-8\"?>\<newline><Workbook>\<newline>'' @
   lit ''  <Sheet name=\"S\">\<newline>'' @
   lit ''    <Row>\<newline>      <A>a</A>\<newline>      <B></B>\<newline>    </Row>\<newline>'' @
   lit ''  </Sheet>\<newline></Workbook>''"
proof -
  let ?ws = "[[Str (lit ''A''), Str (lit ''B'')], [Str (lit ''a'')]]"
  let ?wb = "\<lparr>SheetNames = [lit ''S''], Sheets = (\<lambda>m. Some ?ws)\<rparr>"
  let ?wb' = "\<lparr>SheetNames = [lit ''S''],
               Sheets = (\<lambda>m. Some ?ws)
                 (lit ''S'' := Some [[Str (lit ''A''), Str (lit ''B'')], [Str (lit ''a''), Str []]])\<rparr>"
  let ?read = "\<lambda>bytes :: 8 word list. if bytes = [] then Some ?wb else Some ?wb'"
  let ?f = "\<lparr>filename = lit ''short.csv'', mimetype = lit ''text/csv'', arrayBuffer = Some []\<rparr>"
  let ?f' = "\<lparr>filename = lit ''padded.csv'', mimetype = lit ''text/csv'', arrayBuffer = Some [1]\<rparr>"
  let ?doc = "\<lambda>f. xmlOutput (fst (convertToXml (fst (handleFileUpload ?read xlsx_sheet_to_json
                 (Some f) initial_state))))"
  have eq: "?doc ?f = ?doc ?f'"
    using short_row_read_as_padded
            [of "[Str (lit ''a'')]" "[Str (lit ''A''), Str (lit ''B'')]" ?wb "lit ''S''" "[]" "[]" ?wb'
                ?f "[]" ?read ?f' "[1]" initial_state]
    by (simp add: pad_row_def validTypes_def)
  have "?doc ?f' =
      lit ''<?xml version=\"1.0\" encoding=\"UTF-8\"?>\<newline><Workbook>\<newline>'' @
      lit ''  <Sheet name=\"S\">\<newline>'' @
      lit ''    <Row>\<newline>      <A>a</A>\<newline>      <B></B>\<newline>    </Row>\<newline>'' @
      lit ''  </Sheet>\<newline></Workbook>''"
    by (simp add: handleFileUpload_def validTypes_def xlsx_sheet_to_json_def sheet_width_def
        initial_state_def convertToXml_success emit_sheet_sheet_element sheet_element_def
        row_element_def cell_element_def xml_prolog_def tagName_def sanitizeTagName_def
        replace_invalid_def name_char_def start_char_def escapeXml_def replace_all_def
        fset_of_list.rep_eq lit_def ch_def)
  with eq show ?thesis by simp
qed

section \<open>Sheets of the document\<close>

lemma selected_names:
  assumes "distinct (map name shs)" and "fset sel \<subseteq> set (map name shs)"
  shows "distinct (filter (\<lambda>n. n |\<in>| sel) (map name shs))"
    and "set (filter (\<lambda>n. n |\<in>| sel) (map name shs)) = fset sel"
    and "length (filter (\<lambda>n. n |\<in>| sel) (map name shs)) = fcard sel"
proof -
  let ?L = "filter (\<lambda>n. n |\<in>| sel) (map name shs)"
  show d: "distinct ?L" using assms(1) by simp
  show s: "set ?L = fset sel" using assms(2) by auto
  have "card (set ?L) = length ?L" using d by (rule distinct_card)
  then show "length ?L = fcard sel" by (simp only: s fcard.rep_eq)
qed

text \<open>
  Claim C5. When the sheet names are pairwise distinct and the selection is a non-empty
  subset of them, the conversion completes, and the \<^verbatim>\<open><Sheet>\<close> elements of the stored
  document, read from left to right, are the selected names (escaped) in extraction order:
  each selected name once, as many elements as names selected. (With an empty selection
  there is no document: the conversion fails, see claim C1.)
\<close>

theorem selected_sheets_in_order:
  assumes "distinct (map name (sheets st))"
    and "fset (selectedSheets st) \<subseteq> set (map name (sheets st))"
    and "selectedSheets st \<noteq> {||}"
  shows "let names = filter (\<lambda>n. n |\<in>| selectedSheets st) (map name (sheets st)) in
           snd (convertToXml st) = [Toast (ConversionComplete (fcard (selectedSheets st)))] \<and>
           sheet_elements (xmlOutput (fst (convertToXml st))) = map escapeXml names \<and>
           length (sheet_elements (xmlOutput (fst (convertToXml st)))) = fcard (selectedSheets st) \<and>
           distinct names \<and> set names = fset (selectedSheets st) \<and>
           subseq names (map name (sheets st))"
proof -
  let ?sel = "selectedSheets st"
  let ?names = "filter (\<lambda>n. n |\<in>| ?sel) (map name (sheets st))"
  from assms(2,3) have ne: "sheets st \<noteq> []" by auto
  have out: "sheet_elements (xmlOutput (fst (convertToXml st))) = map escapeXml ?names"
    by (simp add: convertToXml_success [OF ne assms(3)] sheet_elements_document filter_map o_def)
  have eff: "snd (convertToXml st) = [Toast (ConversionComplete (fcard ?sel))]"
    by (simp add: convertToXml_success [OF ne assms(3)])
  show ?thesis
    using out eff selected_names [OF assms(1,2)] by (simp add: Let_def)
qed

theorem selected_sheets_in_order_witness:
  "sheet_elements
     (xmlOutput (fst (convertToXml
        \<lparr>loaded_file = None,
          sheets = [\<lparr>name = lit ''A'', data = []\<rparr>, \<lparr>name = lit ''B<C'', data = []\<rparr>,
                    \<lparr>name = lit ''D'', data = [[Str (lit ''h'')], [Str (lit ''v'')]]\<rparr>],
          selectedSheets = {|lit ''D'', lit ''A''|}, xmlOutput = [], processing = False\<rparr>)))
   = [lit ''A'', lit ''D'']"
  using selected_sheets_in_order
          [of "\<lparr>loaded_file = None,
                sheets = [\<lparr>name = lit ''A'', data = []\<rparr>, \<lparr>name = lit ''B<C'', data = []\<rparr>,
                          \<lparr>name = lit ''D'', data = [[Str (lit ''h'')], [Str (lit ''v'')]]\<rparr>],
                selectedSheets = {|lit ''D'', lit ''A''|}, xmlOutput = [], processing = False\<rparr>"]
  by (simp add: Let_def escapeXml_def replace_all_def lit_def ch_def)

text \<open>
  Claim C10. A selected sheet without rows, or with a header row only, is written as an
  opening \<^verbatim>\<open><Sheet name="..">\<close> tag directly followed by its closing tag, with no
  \<^verbatim>\<open><Row>\<close> in between, and the conversion completes.
\<close>

theorem empty_sheet_still_emitted:
  assumes "sheet \<in> set (sheets st)" and "name sheet |\<in>| selectedSheets st"
    and "length (data sheet) \<le> 1"
  shows "snd (convertToXml st) = [Toast (ConversionComplete (fcard (selectedSheets st)))] \<and>
         sublist (lit ''  <Sheet name=\"'' @ escapeXml (name sheet) @ lit ''\">\<newline>  </Sheet>\<newline>'')
           (xmlOutput (fst (convertToXml st))) \<and>
         emit_sheet [] sheet =
           lit ''  <Sheet name=\"'' @ escapeXml (name sheet) @ lit ''\">\<newline>  </Sheet>\<newline>''"
proof -
  let ?sel = "filter (\<lambda>s. name s |\<in>| selectedSheets st) (sheets st)"
  let ?elem = "lit ''  <Sheet name=\"'' @ escapeXml (name sheet) @ lit ''\">\<newline>  </Sheet>\<newline>''"
  from assms(1) have ne: "sheets st \<noteq> []" by auto
  from assms(2) have sel: "selectedSheets st \<noteq> {||}" by auto
  have elem: "emit_sheet [] sheet = ?elem"
    using emit_sheet_no_rows [OF assms(3)] by (simp add: lit_def)
  from assms(1,2) have "sheet \<in> set ?sel" by simp
  then obtain as bs where "?sel = as @ sheet # bs" by (auto dest: split_list)
  then have "concat (map (emit_sheet []) ?sel) =
      concat (map (emit_sheet []) as) @ ?elem @ concat (map (emit_sheet []) bs)"
    by (simp add: elem)
  then have "xmlOutput (fst (convertToXml st)) =
      (xml_prolog @ concat (map (emit_sheet []) as)) @ ?elem @
      (concat (map (emit_sheet []) bs) @ lit ''</Workbook>'')"
    by (simp add: convertToXml_success [OF ne sel])
  then have "sublist ?elem (xmlOutput (fst (convertToXml st)))"
    unfolding sublist_def by blast
  then show ?thesis
    using elem by (simp add: convertToXml_success [OF ne sel])
qed

theorem empty_sheet_still_emitted_witness:
  "snd (convertToXml
     \<lparr>loaded_file = None,
       sheets = [\<lparr>name = lit ''Empty'', data = []\<rparr>,
                 \<lparr>name = lit ''Head'', data = [[Str (lit ''h'')]]\<rparr>],
       selectedSheets = {|lit ''Empty'', lit ''Head''|}, xmlOutput = [], processing = False\<rparr>)
     = [Toast (ConversionComplete 2)] \<and>
   emit_sheet [] \<lparr>name = lit ''Empty'', data = []\<rparr> =
     lit ''  <Sheet name=\"Empty\">\<newline>  </Sheet>\<newline>'' \<and>
   emit_sheet [] \<lparr>name = lit ''Head'', data = [[Str (lit ''h'')]]\<rparr> =
     lit ''  <Sheet name=\"Head\">\<newline>  </Sheet>\<newline>''"
  using empty_sheet_still_emitted
          [of "\<lparr>name = lit ''Empty'', data = []\<rparr>"
              "\<lparr>loaded_file = None,
                sheets = [\<lparr>name = lit ''Empty'', data = []\<rparr>,
                          \<lparr>name = lit ''Head'', data = [[Str (lit ''h'')]]\<rparr>],
                selectedSheets = {|lit ''Empty'', lit ''Head''|}, xmlOutput = [],
                processing = False\<rparr>"]
        empty_sheet_still_emitted
          [of "\<lparr>name = lit ''Head'', data = [[Str (lit ''h'')]]\<rparr>"
              "\<lparr>loaded_file = None,
                sheets = [\<lparr>name = lit ''Empty'', data = []\<rparr>,
                          \<lparr>name = lit ''Head'', data = [[Str (lit ''h'')]]\<rparr>],
                selectedSheets = {|lit ''Empty'', lit ''Head''|}, xmlOutput = [],
                processing = False\<rparr>"]
  by (simp add: fcard_finsert_if escapeXml_def replace_all_def lit_def ch_def)

section \<open>Upload\<close>

lemma accepted_upload_calls_parser:
  "mimetype f \<in> set validTypes \<or> matches_extension (filename f) \<Longrightarrow>
   arrayBuffer f = Some bytes \<Longrightarrow>
   CallXlsxRead bytes \<in> set (snd (handleFileUpload read sheet_to_json (Some f) st))"
  by (auto simp: handleFileUpload_def Let_def split: option.splits)

text \<open>
  Claim C8. A file whose MIME type is not one of the accepted types and whose name does
  not end in \<^verbatim>\<open>.xlsx\<close>, \<^verbatim>\<open>.xls\<close> or \<^verbatim>\<open>.csv\<close> (in any letter case) is rejected
  with the notification \<open>InvalidFileType\<close>: that notification is the only effect, so the
  parsing library is not called, and the state is returned as it was.
\<close>

theorem unsupported_upload_rejected:
  "mimetype f \<notin> set validTypes \<Longrightarrow> \<not> matches_extension (filename f) \<Longrightarrow>
   handleFileUpload read sheet_to_json (Some f) st = (st, [Toast InvalidFileType])"
  by (simp add: handleFileUpload_def)

theorem unsupported_upload_rejected_witness:
  "handleFileUpload (\<lambda>bytes. Some \<lparr>SheetNames = [lit ''Sheet1''], Sheets = (\<lambda>n. Some ())\<rparr>)
     (\<lambda>ws. Some [[Str (lit ''x'')]])
     (Some \<lparr>filename = lit ''report.txt'', mimetype = lit ''text/plain'', arrayBuffer = Some []\<rparr>)
     \<lparr>loaded_file = None, sheets = [], selectedSheets = {||}, xmlOutput = [], processing = False\<rparr>
   = (\<lparr>loaded_file = None, sheets = [], selectedSheets = {||}, xmlOutput = [], processing = False\<rparr>,
      [Toast InvalidFileType])"
proof -
  have "mimetype \<lparr>filename = lit ''report.txt'', mimetype = lit ''text/plain'', arrayBuffer = Some []\<rparr>
          \<notin> set validTypes"
    by (simp add: validTypes_def lit_def ch_def)
  moreover have "\<not> matches_extension
      (filename \<lparr>filename = lit ''report.txt'', mimetype = lit ''text/plain'', arrayBuffer = Some []\<rparr>)"
    by (simp add: matches_extension_def ascii_lower_def lit_def ch_def suffix_Cons)
  ultimately show ?thesis by (rule unsupported_upload_rejected)
qed

end
